theory Spec2Isabelle
  imports Main
begin

section \<open>Python values used by charm\_upgrade.py\<close>

text \<open>
  Exceptions of the program are values. Only the two exceptions that the modelled
  functions themselves can raise occur: \<open>int\<close> on a string that is no integer literal
  (ValueError) and subscription of a dict with an absent key (KeyError).
\<close>

datatype error = ValueError | KeyError

text \<open>
  A Python dict keeps its items in insertion order, and the program iterates over
  dicts, so a dict is an association list. \<open>d[k] = v\<close> replaces the value of a
  present key where it stands and appends an absent key at the end.
\<close>

type_synonym ('k, 'v) dict = "('k \<times> 'v) list"

definition keys :: "('k, 'v) dict \<Rightarrow> 'k set" where
  "keys d = fst ` set d"

fun dict_set :: "('k, 'v) dict \<Rightarrow> 'k \<Rightarrow> 'v \<Rightarrow> ('k, 'v) dict" where
  "dict_set [] k v = [(k, v)]"
| "dict_set ((k', v') # d) k v =
     (if k' = k then (k, v) # d else (k', v') # dict_set d k v)"

definition dict_get :: "('k, 'v) dict \<Rightarrow> 'k \<Rightarrow> 'v \<Rightarrow> 'v" where
  "dict_get d k dflt = (case map_of d k of None \<Rightarrow> dflt | Some v \<Rightarrow> v)"

definition dict_item :: "('k, 'v) dict \<Rightarrow> 'k \<Rightarrow> error + 'v" where
  "dict_item d k = (case map_of d k of None \<Rightarrow> Inl KeyError | Some v \<Rightarrow> Inr v)"

subsection \<open>Strings\<close>

text \<open>
  The characters that \<open>str.strip\<close> removes and the line boundaries of
  \<open>str.splitlines\<close>, both within the first 256 code points.
\<close>

definition is_space :: "char \<Rightarrow> bool" where
  "is_space c \<longleftrightarrow> c \<in> set [CHR 0x09, CHR 0x0A, CHR 0x0B, CHR 0x0C, CHR 0x0D,
     CHR 0x1C, CHR 0x1D, CHR 0x1E, CHR 0x1F, CHR 0x20, CHR 0x85, CHR 0xA0]"

definition is_linebreak :: "char \<Rightarrow> bool" where
  "is_linebreak c \<longleftrightarrow> c \<in> set [CHR 0x0A, CHR 0x0B, CHR 0x0C, CHR 0x0D,
     CHR 0x1C, CHR 0x1D, CHR 0x1E, CHR 0x85]"

definition py_strip :: "string \<Rightarrow> string" where
  "py_strip s = rev (dropWhile is_space (rev (dropWhile is_space s)))"

text \<open>\<open>s.rsplit(sep)\<close> with no limit: the pieces between the separators, never empty.\<close>

fun py_rsplit :: "char \<Rightarrow> string \<Rightarrow> string list" where
  "py_rsplit sep [] = [[]]"
| "py_rsplit sep (c # cs) =
     (if c = sep then [] # py_rsplit sep cs
      else (case py_rsplit sep cs of [] \<Rightarrow> [[c]] | x # xs \<Rightarrow> (c # x) # xs))"

text \<open>
  \<open>s.splitlines()\<close>: a line ends at a line boundary (CR LF is one boundary); the text
  after the last boundary is a line only when it is not empty. The first argument is
  the current line, reversed.
\<close>

fun splitlines_from :: "string \<Rightarrow> string \<Rightarrow> string list" where
  "splitlines_from cur [] = (if cur = [] then [] else [rev cur])"
| "splitlines_from cur [c] =
     (if is_linebreak c then [rev cur] else [rev (c # cur)])"
| "splitlines_from cur (c # d # cs) =
     (if c = CHR 0x0D \<and> d = CHR 0x0A then rev cur # splitlines_from [] cs
      else if is_linebreak c then rev cur # splitlines_from [] (d # cs)
      else splitlines_from (c # cur) (d # cs))"

definition py_splitlines :: "string \<Rightarrow> string list" where
  "py_splitlines s = splitlines_from [] s"

subsection \<open>\<open>int(s)\<close> and \<open>str(n)\<close>\<close>

definition is_digit :: "char \<Rightarrow> bool" where
  "is_digit c \<longleftrightarrow> c \<in> set ''0123456789''"

definition digit_val :: "char \<Rightarrow> nat" where
  "digit_val c = of_char c - 48"

text \<open>
  The digits of an integer literal: at least one digit, single underscores allowed
  between digits only. The flag says that the previous character was a digit.
\<close>

fun digits_val :: "string \<Rightarrow> nat \<Rightarrow> bool \<Rightarrow> nat option" where
  "digits_val [] acc ok = (if ok then Some acc else None)"
| "digits_val (c # cs) acc ok =
     (if is_digit c then digits_val cs (10 * acc + digit_val c) True
      else if c = CHR ''_'' \<and> ok then digits_val cs acc False
      else None)"

text \<open>
  \<open>int(s)\<close> ignores fewer characters around the literal than \<open>str.strip\<close> removes: the
  separators \<open>0x1C\<close> to \<open>0x1F\<close> are not among them.
\<close>

definition is_int_space :: "char \<Rightarrow> bool" where
  "is_int_space c \<longleftrightarrow> c \<in> set [CHR 0x09, CHR 0x0A, CHR 0x0B, CHR 0x0C, CHR 0x0D,
     CHR 0x20, CHR 0x85, CHR 0xA0]"

definition int_strip :: "string \<Rightarrow> string" where
  "int_strip s = rev (dropWhile is_int_space (rev (dropWhile is_int_space s)))"

text \<open>
  The interpreter refuses a literal of more than \<open>sys.get_int_max_str_digits()\<close> digits,
  4300 unless configured otherwise; leading zeros count, the sign and underscores do
  not. Every refusal of \<open>int\<close> is a ValueError.
\<close>

definition int_max_str_digits :: nat where
  "int_max_str_digits = 4300"

definition py_int :: "string \<Rightarrow> error + int" where
  "py_int s =
     (case int_strip s of
        [] \<Rightarrow> Inl ValueError
      | c # cs \<Rightarrow>
          (let ds = (if c = CHR ''-'' \<or> c = CHR ''+'' then cs else c # cs)
           in case digits_val ds 0 False of
                None \<Rightarrow> Inl ValueError
              | Some n \<Rightarrow>
                  if length (filter is_digit ds) > int_max_str_digits then Inl ValueError
                  else Inr (if c = CHR ''-'' then - int n else int n)))"

fun str_nat :: "nat \<Rightarrow> string" where
  "str_nat n = (if n < 10 then [char_of (48 + n)] else str_nat (n div 10) @ [char_of (48 + n mod 10)])"

definition py_str :: "int \<Rightarrow> string" where
  "py_str i = (if i < 0 then CHR ''-'' # str_nat (nat (- i)) else str_nat (nat i))"

section \<open>Pass C: \<open>update_branch_revision\<close>\<close>

text \<open>
  The three persisted documents. Each maps a charm to a dict: branch to commit,
  revision to commit, branch to revision.
\<close>

type_synonym doc = "(string, (string, string) dict) dict"

record store =
  file_branch_commit :: doc
  file_revision_commit :: doc
  file_branch_revision :: doc

text \<open>
  The inner loop of the first half: \<open>commits\<close> maps a commit to the revision kept for
  it so far; \<open>commits.get(commit, 0)\<close> is the integer 0 for a commit not seen yet.
\<close>

fun commit_max_rev :: "(string, string) dict \<Rightarrow> (string, string) dict \<Rightarrow> error + (string, string) dict" where
  "commit_max_rev [] commits = Inr commits"
| "commit_max_rev ((rv, commit) # rest) commits =
     (case py_int rv of
        Inl e \<Rightarrow> Inl e
      | Inr n \<Rightarrow>
          (case (case map_of commits commit of None \<Rightarrow> Inr 0 | Some r \<Rightarrow> py_int r) of
             Inl e \<Rightarrow> Inl e
           | Inr m \<Rightarrow>
               commit_max_rev rest (if n > m then dict_set commits commit rv else commits)))"

fun commit_revision :: "doc \<Rightarrow> doc \<Rightarrow> error + doc" where
  "commit_revision [] acc = Inr acc"
| "commit_revision ((charm, revisions) # rest) acc =
     (case commit_max_rev revisions [] of
        Inl e \<Rightarrow> Inl e
      | Inr commits \<Rightarrow> commit_revision rest (dict_set acc charm commits))"

text \<open>The inner loop of the second half, for one charm of the branch to commit document.\<close>

fun branch_revision :: "doc \<Rightarrow> string \<Rightarrow> (string, string) dict \<Rightarrow> (string, string) dict \<Rightarrow> error + (string, string) dict" where
  "branch_revision cr charm [] dbr = Inr dbr"
| "branch_revision cr charm ((branch, commit) # rest) dbr =
     (case dict_item cr charm of
        Inl e \<Rightarrow> Inl e
      | Inr commits \<Rightarrow>
          (let rv = dict_get commits commit '''' in
           branch_revision cr charm rest (if rv \<noteq> [] then dict_set dbr branch rv else dbr)))"

fun branch_revision_all :: "doc \<Rightarrow> doc \<Rightarrow> doc \<Rightarrow> error + doc" where
  "branch_revision_all cr [] data = Inr data"
| "branch_revision_all cr ((charm, dbc) # rest) data =
     (case branch_revision cr charm dbc [] of
        Inl e \<Rightarrow> Inl e
      | Inr dbr \<Rightarrow> branch_revision_all cr rest (dict_set data charm dbr))"

text \<open>
  The whole pass: the only write is the last statement, so a run that raises leaves
  the store as it was.
\<close>

definition derive_branch_revision :: "doc \<Rightarrow> doc \<Rightarrow> error + doc" where
  "derive_branch_revision rc bc =
     (case commit_revision rc [] of
        Inl e \<Rightarrow> Inl e
      | Inr cr \<Rightarrow> branch_revision_all cr bc [])"

definition update_branch_revision :: "store \<Rightarrow> error option \<times> store" where
  "update_branch_revision s =
     (case derive_branch_revision (file_revision_commit s) (file_branch_commit s) of
        Inl e \<Rightarrow> (Some e, s)
      | Inr data \<Rightarrow> (None, s\<lparr>file_branch_revision := data\<rparr>))"

section \<open>The package registry: \<open>get_revision_commit\<close>\<close>

text \<open>
  What the registry answers is a parameter. The JSON answer of the \<open>meta/any\<close> endpoint
  has the documented shape: an optional \<open>Id\<close> and, under \<open>Meta\<close>, \<open>extra-info\<close>,
  \<open>vcs-revisions\<close>, a list of entries of which only the \<open>commit\<close> string is read (the
  list is empty when any of the three levels is absent, which the chained \<open>get\<close> calls
  turn into an empty dict). The \<open>repo-info\<close> document is plain text. Both are looked up
  by URL; network failures are outside the model.
\<close>

record meta_doc =
  Id :: "string option"
  vcs_revisions :: "string list"

record web =
  json_at :: "string \<Rightarrow> meta_doc"
  text_at :: "string \<Rightarrow> string"

text \<open>
  The scan of the \<open>repo-info\<close> lines: the first line with key \<open>commit-sha-1\<close> decides,
  \<open>commit\<close> keeps its value when there is none.
\<close>

fun repo_info_commit :: "string list \<Rightarrow> string \<Rightarrow> string" where
  "repo_info_commit [] commit = commit"
| "repo_info_commit (l # ls) commit =
     (let line = py_strip l in
      if CHR '':'' \<in> set line then
        (let key = takeWhile (\<lambda>c. c \<noteq> CHR '':'') line;
             val = tl (dropWhile (\<lambda>c. c \<noteq> CHR '':'') line)
         in if key = ''commit-sha-1'' then py_strip val else repo_info_commit ls commit)
      else repo_info_commit ls commit)"

definition meta_url :: "string \<Rightarrow> string" where
  "meta_url name = ''https://api.jujucharms.com/charmstore/v5/'' @ name @ ''/meta/any?include=extra-info''"

definition repo_info_url :: "string \<Rightarrow> string \<Rightarrow> string" where
  "repo_info_url charm rv = ''https://api.jujucharms.com/charmstore/v5/'' @ charm @ ''-'' @ rv @ ''/archive/repo-info''"

text \<open>The name asked for: \<open>None\<close> and the empty string both ask for the latest revision.\<close>

definition request_name :: "string \<Rightarrow> string option \<Rightarrow> string" where
  "request_name charm r =
     (case r of None \<Rightarrow> charm
      | Some rq \<Rightarrow> if rq \<noteq> [] then charm @ ''-'' @ rq else charm)"

definition get_revision_commit :: "web \<Rightarrow> string \<Rightarrow> string option \<Rightarrow> string \<times> string" where
  "get_revision_commit w charm r =
     (let name = request_name charm r;
          data = json_at w (meta_url name)
      in case Id data of
           None \<Rightarrow> ('''', '''')
         | Some i \<Rightarrow>
             if i \<noteq> [] \<and> CHR ''-'' \<in> set i then
               (let rv = last (py_rsplit CHR ''-'' i);
                    commit = (case vcs_revisions data of [] \<Rightarrow> '''' | c # _ \<Rightarrow> c)
                in if commit = [] then
                     (rv, repo_info_commit
                            (py_splitlines (py_strip (text_at w (repo_info_url charm rv)))) commit)
                   else (rv, commit))
             else ('''', ''''))"

section \<open>The reconciler: \<open>update_charm_revisions\<close>\<close>

text \<open>
  The state of the downward walk: the variables of the loop, the dict that is updated
  in place, and two observations that the source does not store: the requests made to
  the fetcher, oldest first, and whether the loop was left by \<open>break\<close>.
\<close>

record walk_state =
  n_rev :: int
  missing_revs :: nat
  revisions :: "(string, string) dict"
  changed :: nat
  requests :: "string option list"
  aborted :: bool

type_synonym fetcher = "string \<Rightarrow> string option \<Rightarrow> string \<times> string"

datatype flow = Continue | Break

text \<open>One pass through the body of the \<open>while\<close> loop.\<close>

definition walk_body :: "fetcher \<Rightarrow> string \<Rightarrow> walk_state \<Rightarrow> flow \<times> walk_state" where
  "walk_body fetch charm st =
     (let n = n_rev st - 1;
          rq = py_str n;
          st1 = st\<lparr>n_rev := n\<rparr>
      in if rq \<in> keys (revisions st) then (Continue, st1)
         else
           (let (rv, commit) = fetch charm (Some rq);
                st2 = st1\<lparr>requests := requests st @ [Some rq]\<rparr>
            in if rv \<noteq> [] \<and> commit \<noteq> [] then
                 (Continue, st2\<lparr>missing_revs := 0,
                                 revisions := dict_set (revisions st) rv commit,
                                 changed := changed st + 1\<rparr>)
               else if missing_revs st + 1 \<ge> 3 then
                 (Break, st2\<lparr>missing_revs := missing_revs st + 1, aborted := True\<rparr>)
               else
                 (Continue, st2\<lparr>missing_revs := missing_revs st + 1\<rparr>)))"

function walk :: "fetcher \<Rightarrow> string \<Rightarrow> walk_state \<Rightarrow> walk_state" where
  "walk fetch charm st =
     (if n_rev st > 0 then
        (case walk_body fetch charm st of
           (Break, st') \<Rightarrow> st'
         | (Continue, st') \<Rightarrow> walk fetch charm st')
      else st)"
  by pat_completeness auto
termination
proof (relation "measure (\<lambda>(fetch, charm, st). nat (n_rev st))")
  show "wf (measure (\<lambda>(fetch, charm, st). nat (n_rev st)))" by simp
next
  fix fetch charm st x1 x2
  assume pos: "0 < n_rev st" and body: "(x1, x2) = walk_body fetch charm st"
  have "n_rev (snd (walk_body fetch charm st)) = n_rev st - 1"
    by (simp add: walk_body_def Let_def split: prod.splits)
  then have "n_rev x2 = n_rev st - 1"
    using body [symmetric] by simp
  with pos show "((fetch, charm, x2), (fetch, charm, st)) \<in> measure (\<lambda>(fetch, charm, st). nat (n_rev st))"
    by simp
qed

declare walk.simps [simp del]

text \<open>
  What a call leaves behind: the dict as mutated in place (also when the call raises),
  the requests it made, and either the exception or the returned count.
\<close>

record reconciled =
  revisions_out :: "(string, string) dict"
  requests_out :: "string option list"
  returned :: "error + nat"

definition update_charm_revisions :: "fetcher \<Rightarrow> string \<Rightarrow> (string, string) dict \<Rightarrow> reconciled" where
  "update_charm_revisions fetch charm revs =
     (let (rv, commit) = fetch charm None;
          revs1 = (if rv \<notin> keys revs then dict_set revs rv commit else revs);
          changed1 = (if rv \<notin> keys revs then 1 else 0)
      in case py_int rv of
           Inl e \<Rightarrow> \<lparr>revisions_out = revs1, requests_out = [None], returned = Inl e\<rparr>
         | Inr n \<Rightarrow>
             (let st = walk fetch charm
                         \<lparr>n_rev = n, missing_revs = 0, revisions = revs1, changed = changed1,
                          requests = [None], aborted = False\<rparr>
              in \<lparr>revisions_out = revisions st, requests_out = requests st,
                  returned = Inr (changed st)\<rparr>))"

section \<open>The report\<close>

definition NA :: string where
  "NA = ''--''"

definition ORDER_MAX :: nat where
  "ORDER_MAX = 999"

definition BRANCHES :: "string list" where
  "BRANCHES = [''19.04'', ''19.07'', ''19.10'', ''20.02'', ''20.05'']"

definition OPENSTACK_CHAMRS :: "string list" where
  "OPENSTACK_CHAMRS =
     [''barbican-vault'', ''barbican'',
      ''keystone-ldap'', ''keystone'',
      ''rabbitmq-server'',
      ''nova-cloud-controller'',
      ''nova-compute'',
      ''neutron-openvswitch'',
      ''neutron-api'',
      ''neutron-gateway'',
      ''octavia-dashboard'', ''octavia'',
      ''cinder-backup'', ''cinder-ceph'', ''cinder'',
      ''glance'',
      ''heat'',
      ''aodh'',
      ''swift-proxy'', ''swift-storage'',
      ''ceph-mon'', ''ceph-radosgw'', ''ceph-osd'',
      ''ceilometer-agent'', ''ceilometer'',
      ''gnocchi'',
      ''designate-bind'', ''designate'',
      ''openstack-dashboard'',
      ''hacluster'',
      ''vault'']"

definition LMA_CHARMS :: "string list" where
  "LMA_CHARMS =
     [''canonical-livepatch'',
      ''thruk-agent'', ''nrpe'', ''nagios'',
      ''grafana'',
      ''prometheus-ceph-exporter'',
      ''prometheus-libvirt-exporter'',
      ''prometheus-openstack-exporter'',
      ''prometheus'',
      ''prometheus2'',
      ''telegraf'',
      ''kibana'', ''filebeat'', ''graylog'', ''elasticsearch'',
      ''etcd'',
      ''easyrsa'',
      ''mysql'', ''percona-cluster'',
      ''mongodb'',
      ''ntp'']"

text \<open>The dict comprehension over \<open>enumerate\<close>: a later occurrence of a charm would win.\<close>

definition orders_of :: "string list \<Rightarrow> (string, nat) dict" where
  "orders_of charms = fold (\<lambda>(i, charm) d. dict_set d charm i) (enumerate 0 charms) []"

definition ORDERS :: "(string, nat) dict" where
  "ORDERS = orders_of (OPENSTACK_CHAMRS @ LMA_CHARMS)"

text \<open>
  \<open>charm-rev\<close> comes from the status JSON, where it is a number, a string or null;
  \<open>mark_revs\<close> tests its truth value and compares its \<open>str\<close>.
\<close>

datatype pyval = PNone | PInt int | PStr string

fun truthy :: "pyval \<Rightarrow> bool" where
  "truthy PNone = False"
| "truthy (PInt i) = (i \<noteq> 0)"
| "truthy (PStr s) = (s \<noteq> [])"

fun str_of :: "pyval \<Rightarrow> string" where
  "str_of PNone = ''None''"
| "str_of (PInt i) = py_str i"
| "str_of (PStr s) = s"

definition yesno :: "bool \<Rightarrow> 'a \<Rightarrow> 'a \<Rightarrow> 'a" where
  "yesno boolean yes no = (if boolean then yes else no)"

definition mark_revs :: "string list \<Rightarrow> pyval \<Rightarrow> string list" where
  "mark_revs revs current_rev =
     (if truthy current_rev then
        map (\<lambda>rv. yesno (str_of current_rev = rv) ''*'' '''' @ rv) revs
      else revs)"

text \<open>An application of the status document, with the fields that \<open>main\<close> reads.\<close>

record application =
  app_name :: string
  charm_name :: string
  charm_uri :: string
  charm_rev :: pyval
  can_upgrade_to :: "string option"
  units :: "nat option"

text \<open>The arguments of one \<open>print_app\<close> call.\<close>

record row =
  row_order :: string
  row_app :: string
  row_current :: string
  row_latest :: string
  row_revs :: "string list"
  row_units :: string

text \<open>The first loop of \<open>main\<close> pairs every application with its order; \<open>sorted\<close> is stable.\<close>

definition app_order :: "string \<Rightarrow> nat" where
  "app_order charm = dict_get ORDERS charm ORDER_MAX"

definition ordered_apps :: "application list \<Rightarrow> (nat \<times> application) list" where
  "ordered_apps apps = sort_key fst (map (\<lambda>a. (app_order (charm_name a), a)) apps)"

definition report_row :: "doc \<Rightarrow> nat \<times> application \<Rightarrow> row" where
  "report_row branch_to_revision p =
     (let ord = fst p; app = snd p;
          revs = map (\<lambda>branch. dict_get (dict_get branch_to_revision (charm_name app) []) branch '''') BRANCHES;
          cut = (case can_upgrade_to app of None \<Rightarrow> '''' | Some s \<Rightarrow> s);
          n_units = (case units app of None \<Rightarrow> 0 | Some n \<Rightarrow> n)
      in \<lparr>row_order = (if ord = ORDER_MAX then NA else py_str (int ord)),
          row_app = app_name app,
          row_current = take 40 (charm_uri app),
          row_latest = (if cut \<noteq> [] \<and> CHR ''-'' \<in> set cut then last (py_rsplit CHR ''-'' cut) else NA),
          row_revs = mark_revs revs (charm_rev app),
          row_units = (if n_units = 0 then '''' else py_str (int n_units))\<rparr>)"

definition report :: "doc \<Rightarrow> application list \<Rightarrow> row list" where
  "report branch_to_revision apps = map (report_row branch_to_revision) (ordered_apps apps)"

section \<open>Registries used as concrete inputs\<close>

text \<open>A registry that knows no charm: every answer lacks \<open>Id\<close>.\<close>

definition unknown_charm_web :: web where
  "unknown_charm_web = \<lparr>json_at = (\<lambda>url. \<lparr>Id = None, vcs_revisions = []\<rparr>), text_at = (\<lambda>url. '''')\<rparr>"

text \<open>
  A registry whose latest \<open>barbican-vault\<close> is revision 15, with an empty \<open>extra-info\<close>
  (the case of the docstring) and an empty \<open>repo-info\<close> document.
\<close>

definition no_commit_web :: web where
  "no_commit_web =
     \<lparr>json_at = (\<lambda>url. if url = meta_url ''barbican-vault''
                         then \<lparr>Id = Some ''cs:barbican-vault-15'', vcs_revisions = []\<rparr>
                         else \<lparr>Id = None, vcs_revisions = []\<rparr>),
      text_at = (\<lambda>url. '''')\<rparr>"

text \<open>
  A registry that answers every query with revision 303 of \<open>cinder\<close>, an empty
  \<open>extra-info\<close> and a \<open>repo-info\<close> document without a \<open>commit-sha-1\<close> line.
\<close>

definition no_sha_web :: web where
  "no_sha_web =
     \<lparr>json_at = (\<lambda>url. \<lparr>Id = Some ''cs:cinder-303'', vcs_revisions = []\<rparr>),
      text_at = (\<lambda>url. ''commit-short: a52f533\<newline>branch: HEAD\<newline>'')\<rparr>"

text \<open>
  A registry that answers the query for \<open>cinder-303\<close> with a commit in \<open>vcs-revisions\<close>
  and every other query with revision 4 of \<open>barbican-vault\<close> and an empty first commit;
  its \<open>repo-info\<close> documents have two \<open>commit-sha-1\<close> lines.
\<close>

definition sha_web :: web where
  "sha_web =
     \<lparr>json_at = (\<lambda>url. if url = meta_url ''cinder-303''
                         then \<lparr>Id = Some ''cs:cinder-303'', vcs_revisions = [''9b8a'']\<rparr>
                         else \<lparr>Id = Some ''cs:barbican-vault-4'', vcs_revisions = ['''']\<rparr>),
      text_at = (\<lambda>url. '' commit-sha-1: a52f \<newline>commit-sha-1: ffff\<newline>'')\<rparr>"

text \<open>
  A registry that answers every query with revision 7 of \<open>cinder\<close>, an empty first
  commit and a \<open>repo-info\<close> document whose first \<open>commit-sha-1\<close> line has no value.
\<close>

definition empty_sha_web :: web where
  "empty_sha_web =
     \<lparr>json_at = (\<lambda>url. \<lparr>Id = Some ''cs:cinder-7'', vcs_revisions = ['''', ''9b8a'']\<rparr>),
      text_at = (\<lambda>url. ''branch: HEAD\<newline>commit-sha-1:\<newline>commit-sha-1: ffff\<newline>'')\<rparr>"


section \<open>Stores used as concrete inputs\<close>

text \<open>A store whose branch document names \<open>glance\<close>, unknown to the revision document.\<close>

definition missing_glance_store :: store where
  "missing_glance_store =
     \<lparr>file_branch_commit = [(''cinder'', [(''20.05'', ''C1'')]), (''glance'', [(''20.05'', ''G1'')])],
      file_revision_commit = [(''cinder'', [(''10'', ''C1'')])],
      file_branch_revision = []\<rparr>"

text \<open>A store whose branch document names \<open>foo\<close> without any branch, unknown to the revision document.\<close>

definition empty_branch_store :: store where
  "empty_branch_store =
     \<lparr>file_branch_commit = [(''cinder'', [(''20.05'', ''C1'')]), (''foo'', [])],
      file_revision_commit = [(''cinder'', [(''10'', ''C1''), (''9'', ''C0'')])],
      file_branch_revision = []\<rparr>"

section \<open>Predicates on fetch results\<close>

text \<open>The \<open>else\<close> branch of \<open>if rev and commit\<close>: a fetch result that counts as a miss.\<close>

definition empty_result :: "string \<times> string \<Rightarrow> bool" where
  "empty_result p \<longleftrightarrow> fst p = [] \<or> snd p = []"


section \<open>The \<open>repo-info\<close> document\<close>

text \<open>
  The values of the \<open>commit-sha-1\<close> lines of a \<open>repo-info\<close> document, in the order of the
  lines: a line counts when, stripped, it has a colon and the text before its first
  colon is \<open>commit-sha-1\<close>; its value is the stripped text after that colon.
\<close>

definition commit_sha_values :: "string \<Rightarrow> string list" where
  "commit_sha_values body =
     map (\<lambda>l. py_strip (tl (dropWhile (\<lambda>c. c \<noteq> CHR '':'') l)))
       (filter (\<lambda>l. CHR '':'' \<in> set l \<and> takeWhile (\<lambda>c. c \<noteq> CHR '':'') l = ''commit-sha-1'')
          (map py_strip (py_splitlines (py_strip body))))"

section \<open>Fetchers, walk states and applications used as concrete inputs\<close>


definition gap_stub :: fetcher where
  "gap_stub charm r =
     (case r of None \<Rightarrow> (''6'', ''C6'')
      | Some rq \<Rightarrow> if rq = ''2'' then (''2'', ''C2'') else ('''', ''''))"

definition third_miss_state :: walk_state where
  "third_miss_state = \<lparr>n_rev = 4, missing_revs = 2, revisions = [(''6'', ''C6'')], changed = 1,
                        requests = [None, Some ''5'', Some ''4''], aborted = False\<rparr>"

definition hit_state :: walk_state where
  "hit_state = \<lparr>n_rev = 3, missing_revs = 2, revisions = [(''6'', ''C6'')], changed = 1,
                 requests = [None, Some ''5'', Some ''4''], aborted = False\<rparr>"


definition unranked_app :: application where
  "unranked_app = \<lparr>app_name = ''aaa'', charm_name = ''zookeeper'', charm_uri = ''cs:zookeeper-7'',
                    charm_rev = PInt 7, can_upgrade_to = None, units = Some 1\<rparr>"

definition ranked_app :: application where
  "ranked_app = \<lparr>app_name = ''zzz'', charm_name = ''ntp'', charm_uri = ''cs:ntp-41'',
                  charm_rev = PInt 41, can_upgrade_to = Some ''cs:ntp-44'', units = None\<rparr>"

section \<open>Facts about the Python values\<close>

lemma py_int_error: "py_int s = Inl e \<Longrightarrow> e = ValueError"
  by (cases e) (auto simp: py_int_def Let_def split: list.splits if_splits option.splits)

lemma set_dict_set: "set (dict_set d k v) \<subseteq> insert (k, v) (set d)"
  by (induction d k v rule: dict_set.induct) auto

lemma keys_dict_set: "keys (dict_set d k v) = insert k (keys d)"
  by (induction d k v rule: dict_set.induct) (auto simp: keys_def)

lemma map_of_None_keys: "map_of d k = None \<longleftrightarrow> k \<notin> keys d"
  by (simp add: keys_def map_of_eq_None_iff)

lemma keys_Nil: "keys [] = {}"
  by (simp add: keys_def)

lemma keys_Cons: "keys ((k, v) # d) = insert k (keys d)"
  by (simp add: keys_def)

lemma map_of_dict_set: "map_of (dict_set d k v) = (map_of d)(k \<mapsto> v)"
  by (induction d k v rule: dict_set.induct) auto

section \<open>Pass C\<close>

text \<open>
  C1. Pass C is to choose, for every commit, the numerically largest revision that
  produced it. The code compares with the default 0 of \<open>commits.get(commit, 0)\<close>, so a
  commit whose only revision is \<open>0\<close> gets no revision at all: in the entries
  \<open>{"1":"X","2":"X","0":"Y"}\<close> commit \<open>X\<close> resolves to \<open>2\<close> but \<open>Y\<close> resolves to nothing,
  and a branch that points to such a commit is left out of the derived document.
\<close>

theorem revision_zero_is_dropped:
  "commit_max_rev [(''1'', ''X''), (''2'', ''X''), (''0'', ''Y'')] [] = Inr [(''X'', ''2'')]
   \<and> update_branch_revision
       \<lparr>file_branch_commit = [(''cinder'', [(''20.05'', ''Y'')])],
        file_revision_commit = [(''cinder'', [(''0'', ''Y'')])],
        file_branch_revision = []\<rparr>
     = (None,
       \<lparr>file_branch_commit = [(''cinder'', [(''20.05'', ''Y'')])],
        file_revision_commit = [(''cinder'', [(''0'', ''Y'')])],
        file_branch_revision = [(''cinder'', [])]\<rparr>)"
  by code_simp

text \<open>
  C6. From the branch to commit document \<open>{"cinder":{"20.05":"C1"}}\<close> and the revision
  to commit document \<open>{"cinder":{"10":"C1","9":"C0"}}\<close> the pass writes
  \<open>{"cinder":{"20.05":"10"}}\<close>, whatever the third document held before; and running
  the pass a second time gives the same outcome and the same store as running it once.
\<close>

theorem pass_c_example_and_idempotent:
  "update_branch_revision
     \<lparr>file_branch_commit = [(''cinder'', [(''20.05'', ''C1'')])],
      file_revision_commit = [(''cinder'', [(''10'', ''C1''), (''9'', ''C0'')])],
      file_branch_revision = old\<rparr>
   = (None,
     \<lparr>file_branch_commit = [(''cinder'', [(''20.05'', ''C1'')])],
      file_revision_commit = [(''cinder'', [(''10'', ''C1''), (''9'', ''C0'')])],
      file_branch_revision = [(''cinder'', [(''20.05'', ''10'')])]\<rparr>)
   \<and> update_branch_revision (snd (update_branch_revision s)) = update_branch_revision s"
proof
  have "derive_branch_revision [(''cinder'', [(''10'', ''C1''), (''9'', ''C0'')])]
          [(''cinder'', [(''20.05'', ''C1'')])] = Inr [(''cinder'', [(''20.05'', ''10'')])]"
    by code_simp
  then show "update_branch_revision
     \<lparr>file_branch_commit = [(''cinder'', [(''20.05'', ''C1'')])],
      file_revision_commit = [(''cinder'', [(''10'', ''C1''), (''9'', ''C0'')])],
      file_branch_revision = old\<rparr>
   = (None,
     \<lparr>file_branch_commit = [(''cinder'', [(''20.05'', ''C1'')])],
      file_revision_commit = [(''cinder'', [(''10'', ''C1''), (''9'', ''C0'')])],
      file_branch_revision = [(''cinder'', [(''20.05'', ''10'')])]\<rparr>)"
    by (simp add: update_branch_revision_def)
next
  show "update_branch_revision (snd (update_branch_revision s)) = update_branch_revision s"
    by (cases "derive_branch_revision (file_revision_commit s) (file_branch_commit s)")
       (simp_all add: update_branch_revision_def)
qed

subsection \<open>The implicit precondition of the second half\<close>

lemma commit_max_rev_total:
  assumes "\<forall>(rv, c) \<in> set revs. py_int rv \<noteq> Inl ValueError"
    and "\<forall>(c, r) \<in> set commits. py_int r \<noteq> Inl ValueError"
  shows "\<exists>cs. commit_max_rev revs commits = Inr cs"
  using assms
proof (induction revs arbitrary: commits)
  case Nil
  then show ?case by simp
next
  case (Cons p revs)
  obtain rv commit where p: "p = (rv, commit)" by (cases p)
  from Cons.prems(1) p have "py_int rv \<noteq> Inl ValueError" by simp
  then obtain n where n: "py_int rv = Inr n"
    by (cases "py_int rv") (auto dest: py_int_error)
  have "\<exists>m. (case map_of commits commit of None \<Rightarrow> Inr 0 | Some r \<Rightarrow> py_int r) = Inr m"
  proof (cases "map_of commits commit")
    case None
    then show ?thesis by simp
  next
    case (Some r)
    then have "(commit, r) \<in> set commits" by (rule map_of_SomeD)
    with Cons.prems(2) have "py_int r \<noteq> Inl ValueError" by auto
    then show ?thesis using Some by (cases "py_int r") (auto dest: py_int_error)
  qed
  then obtain m where m: "(case map_of commits commit of None \<Rightarrow> Inr 0 | Some r \<Rightarrow> py_int r) = Inr m" ..
  let ?c = "if n > m then dict_set commits commit rv else commits"
  have "\<forall>(c, r) \<in> set ?c. py_int r \<noteq> Inl ValueError"
    using Cons.prems(2) \<open>py_int rv \<noteq> Inl ValueError\<close> set_dict_set [of commits commit rv] by auto
  moreover have "\<forall>(rv, c) \<in> set revs. py_int rv \<noteq> Inl ValueError"
    using Cons.prems(1) by simp
  ultimately have "\<exists>cs. commit_max_rev revs ?c = Inr cs" by (rule Cons.IH [rotated])
  then show ?case using p n m by simp
qed

lemma commit_revision_total:
  assumes "\<forall>(charm, revs) \<in> set rc. \<forall>(rv, c) \<in> set revs. py_int rv \<noteq> Inl ValueError"
  shows "\<exists>cr. commit_revision rc acc = Inr cr \<and> keys cr = keys acc \<union> keys rc"
  using assms
proof (induction rc arbitrary: acc)
  case Nil
  then show ?case by (simp add: keys_Nil)
next
  case (Cons p rc)
  obtain charm revs where p: "p = (charm, revs)" by (cases p)
  have "p \<in> set (p # rc)" by simp
  with Cons.prems have "case p of (charm, revs) \<Rightarrow> \<forall>(rv, c) \<in> set revs. py_int rv \<noteq> Inl ValueError"
    by (rule bspec)
  with p have hd: "\<forall>(rv, c) \<in> set revs. py_int rv \<noteq> Inl ValueError" by simp
  have "\<forall>(c, r) \<in> set ([] :: (string, string) dict). py_int r \<noteq> Inl ValueError" by simp
  with hd obtain cs where cs: "commit_max_rev revs [] = Inr cs"
    using commit_max_rev_total [of revs "[]"] by blast
  have tl: "\<forall>(charm, revs) \<in> set rc. \<forall>(rv, c) \<in> set revs. py_int rv \<noteq> Inl ValueError"
  proof
    fix x assume "x \<in> set rc"
    then have "x \<in> set (p # rc)" by simp
    with Cons.prems show "case x of (charm, revs) \<Rightarrow> \<forall>(rv, c) \<in> set revs. py_int rv \<noteq> Inl ValueError"
      by (rule bspec)
  qed
  from Cons.IH [OF tl, of "dict_set acc charm cs"]
  obtain cr where cr: "commit_revision rc (dict_set acc charm cs) = Inr cr"
    and k: "keys cr = keys (dict_set acc charm cs) \<union> keys rc" by blast
  have "commit_revision (p # rc) acc = Inr cr" using p cs cr by simp
  moreover have "keys cr = keys acc \<union> keys (p # rc)"
    using k p by (simp add: keys_dict_set keys_Cons)
  ultimately show ?case by blast
qed

lemma branch_revision_absent:
  "charm \<notin> keys cr \<Longrightarrow> dbc \<noteq> [] \<Longrightarrow> branch_revision cr charm dbc dbr = Inl KeyError"
  by (cases dbc) (auto simp: dict_item_def map_of_None_keys [symmetric])

lemma branch_revision_present:
  "charm \<in> keys cr \<Longrightarrow> \<exists>d. branch_revision cr charm dbc dbr = Inr d"
proof (induction dbc arbitrary: dbr)
  case Nil
  then show ?case by simp
next
  case (Cons p dbc)
  obtain branch commit where p: "p = (branch, commit)" by (cases p)
  from Cons.prems obtain commits where "map_of cr charm = Some commits"
    using map_of_None_keys [of cr charm] by (cases "map_of cr charm") auto
  then show ?case using p Cons.IH [OF Cons.prems] by (simp add: dict_item_def Let_def)
qed

lemma branch_revision_all_cases:
  "branch_revision_all cr bc data =
     Inl KeyError \<and> (\<exists>(charm, dbc) \<in> set bc. dbc \<noteq> [] \<and> charm \<notin> keys cr)
   \<or> (\<exists>d. branch_revision_all cr bc data = Inr d) \<and> \<not> (\<exists>(charm, dbc) \<in> set bc. dbc \<noteq> [] \<and> charm \<notin> keys cr)"
proof (induction bc arbitrary: data)
  case Nil
  then show ?case by simp
next
  case (Cons p bc)
  obtain charm dbc where p: "p = (charm, dbc)" by (cases p)
  show ?case
  proof (cases "dbc \<noteq> [] \<and> charm \<notin> keys cr")
    case True
    then have "branch_revision cr charm dbc [] = Inl KeyError"
      by (simp add: branch_revision_absent)
    then show ?thesis using p True by auto
  next
    case False
    have "\<exists>d. branch_revision cr charm dbc [] = Inr d"
    proof (cases "dbc = []")
      case True
      then show ?thesis by simp
    next
      case False
      with \<open>\<not> (dbc \<noteq> [] \<and> charm \<notin> keys cr)\<close> have "charm \<in> keys cr" by simp
      then show ?thesis by (rule branch_revision_present)
    qed
    then obtain d where d: "branch_revision cr charm dbc [] = Inr d" ..
    show ?thesis using Cons.IH [of "dict_set data charm d"] p d False by auto
  qed
qed

lemma branch_revision_all_frame:
  "branch_revision_all cr bc data = Inr d \<Longrightarrow> k \<notin> keys bc \<Longrightarrow> map_of d k = map_of data k"
proof (induction bc arbitrary: data)
  case Nil
  then show ?case by simp
next
  case (Cons p bc)
  obtain charm dbc where p: "p = (charm, dbc)" by (cases p)
  from Cons.prems(2) p have ne: "k \<noteq> charm" and nk: "k \<notin> keys bc" by (simp_all add: keys_Cons)
  from Cons.prems(1) p obtain dbr where dbr: "branch_revision cr charm dbc [] = Inr dbr"
    and rest: "branch_revision_all cr bc (dict_set data charm dbr) = Inr d"
    by (cases "branch_revision cr charm dbc []") simp_all
  from Cons.IH [OF rest nk] ne show ?case by (simp add: map_of_dict_set)
qed

lemma branch_revision_all_written:
  "branch_revision_all cr bc data = Inr d \<Longrightarrow>
     keys d = keys data \<union> keys bc
     \<and> (\<forall>charm \<in> keys bc. (\<forall>dbc. (charm, dbc) \<in> set bc \<longrightarrow> dbc = []) \<longrightarrow> map_of d charm = Some [])"
proof (induction bc arbitrary: data)
  case Nil
  then show ?case by (simp add: keys_Nil)
next
  case (Cons p bc)
  obtain charm dbc where p: "p = (charm, dbc)" by (cases p)
  from Cons.prems p obtain dbr where dbr: "branch_revision cr charm dbc [] = Inr dbr"
    and rest: "branch_revision_all cr bc (dict_set data charm dbr) = Inr d"
    by (cases "branch_revision cr charm dbc []") simp_all
  note ih = Cons.IH [OF rest]
  have k: "keys d = keys data \<union> keys (p # bc)"
    using ih p by (simp add: keys_dict_set keys_Cons)
  have e: "map_of d c = Some []"
    if c: "c \<in> keys (p # bc)" and a: "\<forall>x. (c, x) \<in> set (p # bc) \<longrightarrow> x = []" for c
  proof (cases "c \<in> keys bc")
    case True
    moreover from a have "\<forall>x. (c, x) \<in> set bc \<longrightarrow> x = []" by simp
    ultimately show ?thesis using ih by blast
  next
    case False
    with c p have cc: "c = charm" by (simp add: keys_Cons)
    with a p have "dbc = []" by simp
    with dbr have "dbr = []" by simp
    from branch_revision_all_frame [OF rest False] cc \<open>dbr = []\<close>
    show ?thesis by (simp add: map_of_dict_set)
  qed
  from k e show ?case by blast
qed

text \<open>
  C10 as stated: the pass is said to raise KeyError whenever a charm of the branch
  document is absent from the revision document. It does not when that charm has no
  branches: the subscript \<open>OPENSTACK_CHARMS_COMMIT_REVISION[charm]\<close> stands inside the
  loop over the branches and is never evaluated, and the pass writes an empty entry.
\<close>

theorem empty_branch_map_needs_no_revisions:
  "''foo'' \<in> keys [(''foo'', [] :: (string, string) dict)] \<and> ''foo'' \<notin> keys ([] :: doc)
   \<and> update_branch_revision
       \<lparr>file_branch_commit = [(''foo'', [])], file_revision_commit = [], file_branch_revision = []\<rparr>
     = (None,
       \<lparr>file_branch_commit = [(''foo'', [])], file_revision_commit = [],
        file_branch_revision = [(''foo'', [])]\<rparr>)"
  by code_simp

text \<open>
  C10, amended. When every revision key of the revision document is an integer
  literal that \<open>int\<close> accepts (so that the first half raises no ValueError), the pass
  raises KeyError and leaves the store as it was exactly when some charm of the branch
  document that has at least one branch is absent from the revision document.
  Otherwise it returns normally and replaces the third document only; the document it
  writes has exactly the charms of the branch document, and a charm whose branch map is
  empty has the empty entry there, whether the revision document knows it or not.
\<close>

theorem update_branch_revision_key_error:
  assumes "\<forall>(charm, revs) \<in> set (file_revision_commit s). \<forall>(rv, c) \<in> set revs. py_int rv \<noteq> Inl ValueError"
  shows "if \<exists>(charm, dbc) \<in> set (file_branch_commit s). dbc \<noteq> [] \<and> charm \<notin> keys (file_revision_commit s)
         then update_branch_revision s = (Some KeyError, s)
         else \<exists>data. update_branch_revision s = (None, s\<lparr>file_branch_revision := data\<rparr>)
                \<and> keys data = keys (file_branch_commit s)
                \<and> (\<forall>charm \<in> keys (file_branch_commit s).
                      (\<forall>dbc. (charm, dbc) \<in> set (file_branch_commit s) \<longrightarrow> dbc = [])
                      \<longrightarrow> map_of data charm = Some [])"
proof -
  from commit_revision_total [OF assms, of "[]"]
  obtain cr where cr: "commit_revision (file_revision_commit s) [] = Inr cr"
    and k: "keys cr = keys (file_revision_commit s)" by (auto simp: keys_def)
  from branch_revision_all_cases [of cr "file_branch_commit s" "[]"]
  consider (err) "branch_revision_all cr (file_branch_commit s) [] = Inl KeyError"
      "\<exists>(charm, dbc) \<in> set (file_branch_commit s). dbc \<noteq> [] \<and> charm \<notin> keys cr"
    | (ok) d where "branch_revision_all cr (file_branch_commit s) [] = Inr d"
      "\<not> (\<exists>(charm, dbc) \<in> set (file_branch_commit s). dbc \<noteq> [] \<and> charm \<notin> keys cr)"
    by blast
  then show ?thesis
  proof cases
    case err
    then show ?thesis
      unfolding update_branch_revision_def derive_branch_revision_def
      by (simp add: cr k)
  next
    case ok
    from branch_revision_all_written [OF ok(1)]
    have w: "keys d = keys (file_branch_commit s)"
      "\<forall>charm \<in> keys (file_branch_commit s).
          (\<forall>dbc. (charm, dbc) \<in> set (file_branch_commit s) \<longrightarrow> dbc = []) \<longrightarrow> map_of d charm = Some []"
      by (simp_all add: keys_Nil)
    have u: "update_branch_revision s = (None, s\<lparr>file_branch_revision := d\<rparr>)"
      unfolding update_branch_revision_def derive_branch_revision_def
      by (simp add: cr ok(1))
    from ok(2) have n: "\<not> (\<exists>(charm, dbc) \<in> set (file_branch_commit s). dbc \<noteq> [] \<and> charm \<notin> keys (file_revision_commit s))"
      unfolding k .
    from u w have "\<exists>data. update_branch_revision s = (None, s\<lparr>file_branch_revision := data\<rparr>)
                \<and> keys data = keys (file_branch_commit s)
                \<and> (\<forall>charm \<in> keys (file_branch_commit s).
                      (\<forall>dbc. (charm, dbc) \<in> set (file_branch_commit s) \<longrightarrow> dbc = [])
                      \<longrightarrow> map_of data charm = Some [])"
      by blast
    with n show ?thesis by (simp only: if_False)
  qed
qed

theorem update_branch_revision_key_error_witness:
  "update_branch_revision missing_glance_store = (Some KeyError, missing_glance_store)
   \<and> (\<exists>data. update_branch_revision empty_branch_store
                = (None, empty_branch_store\<lparr>file_branch_revision := data\<rparr>)
            \<and> keys data = {''cinder'', ''foo''}
            \<and> map_of data ''foo'' = Some [])
   \<and> update_branch_revision empty_branch_store
       = (None, empty_branch_store\<lparr>file_branch_revision := [(''cinder'', [(''20.05'', ''10'')]), (''foo'', [])]\<rparr>)"
proof -
  have p: "py_int ''10'' \<noteq> Inl ValueError" "py_int ''9'' \<noteq> Inl ValueError" by code_simp+
  have h1: "\<forall>(charm, revs) \<in> set (file_revision_commit missing_glance_store).
              \<forall>(rv, c) \<in> set revs. py_int rv \<noteq> Inl ValueError"
    by (simp add: missing_glance_store_def p)
  have h2: "\<forall>(charm, revs) \<in> set (file_revision_commit empty_branch_store).
              \<forall>(rv, c) \<in> set revs. py_int rv \<noteq> Inl ValueError"
    by (simp add: empty_branch_store_def p)
  have c1: "\<exists>(charm, dbc) \<in> set (file_branch_commit missing_glance_store).
              dbc \<noteq> [] \<and> charm \<notin> keys (file_revision_commit missing_glance_store)"
    by (simp add: missing_glance_store_def keys_Cons keys_Nil)
  have c2: "\<not> (\<exists>(charm, dbc) \<in> set (file_branch_commit empty_branch_store).
              dbc \<noteq> [] \<and> charm \<notin> keys (file_revision_commit empty_branch_store))"
    by (simp add: empty_branch_store_def keys_Cons keys_Nil)
  have kb: "keys (file_branch_commit empty_branch_store) = {''cinder'', ''foo''}"
    by (simp add: empty_branch_store_def keys_Cons keys_Nil)
  have fe: "\<forall>dbc. (''foo'', dbc) \<in> set (file_branch_commit empty_branch_store) \<longrightarrow> dbc = []"
    by (simp add: empty_branch_store_def)
  from update_branch_revision_key_error [OF h1] c1
  have a: "update_branch_revision missing_glance_store = (Some KeyError, missing_glance_store)"
    by (simp only: if_True)
  from update_branch_revision_key_error [OF h2] c2
  obtain data where d: "update_branch_revision empty_branch_store
                = (None, empty_branch_store\<lparr>file_branch_revision := data\<rparr>)"
     and dk: "keys data = keys (file_branch_commit empty_branch_store)"
     and de: "\<forall>charm \<in> keys (file_branch_commit empty_branch_store).
                (\<forall>dbc. (charm, dbc) \<in> set (file_branch_commit empty_branch_store) \<longrightarrow> dbc = [])
                \<longrightarrow> map_of data charm = Some []"
    by (simp only: if_False) blast
  from de fe kb have "map_of data ''foo'' = Some []" by blast
  with d dk kb have b: "\<exists>data. update_branch_revision empty_branch_store
                = (None, empty_branch_store\<lparr>file_branch_revision := data\<rparr>)
            \<and> keys data = {''cinder'', ''foo''}
            \<and> map_of data ''foo'' = Some []" by auto
  have c: "update_branch_revision empty_branch_store
       = (None, empty_branch_store\<lparr>file_branch_revision := [(''cinder'', [(''20.05'', ''10'')]), (''foo'', [])]\<rparr>)"
    by code_simp
  from a b c show ?thesis by (intro conjI)
qed

section \<open>The reconciler\<close>

text \<open>
  C3. An empty fetch result is to be harmless for the reconciler. For a charm that the
  registry does not know, the latest-revision fetch returns \<open>("", "")\<close>; the code stores
  the empty key with the empty commit and then raises ValueError at \<open>int(rev)\<close>,
  before the walk begins.
\<close>

theorem empty_latest_raises:
  "get_revision_commit unknown_charm_web ''cinder'' None = ('''', '''')
   \<and> update_charm_revisions (get_revision_commit unknown_charm_web) ''cinder'' []
     = \<lparr>revisions_out = [('''', '''')], requests_out = [None], returned = Inl ValueError\<rparr>"
  by code_simp

text \<open>
  C5. No revision is to be written with an empty commit. When the latest revision has
  no commit in either source, the code writes it with the empty commit, counts it as
  a change and returns normally: the first write is not guarded as the writes of the
  walk are.
\<close>

theorem latest_without_commit_is_written:
  "update_charm_revisions (get_revision_commit no_commit_web) ''barbican-vault'' []
     = \<lparr>revisions_out = [(''15'', '''')],
        requests_out = [None, Some ''14'', Some ''13'', Some ''12''],
        returned = Inr 1\<rparr>"
  by code_simp

subsection \<open>The skip rule\<close>

lemma walk_body_requests_mono:
  "\<exists>new. requests (snd (walk_body fetch charm st)) = requests st @ new"
  by (simp add: walk_body_def Let_def split: prod.splits)

lemma dict_set_absent: "k \<notin> keys d \<Longrightarrow> dict_set d k v = d @ [(k, v)]"
  by (induction d k v rule: dict_set.induct) (auto simp: keys_Cons)

lemma keys_append: "keys (d @ e) = keys d \<union> keys e"
  by (auto simp: keys_def)










subsection \<open>The early stop\<close>

lemma walk_body_miss:
  assumes "py_str (n_rev st - 1) \<notin> keys (revisions st)"
    and "empty_result (fetch charm (Some (py_str (n_rev st - 1))))"
  shows "walk_body fetch charm st =
           (if missing_revs st + 1 \<ge> 3 then Break else Continue,
            st\<lparr>n_rev := n_rev st - 1,
               requests := requests st @ [Some (py_str (n_rev st - 1))],
               missing_revs := missing_revs st + 1,
               aborted := (missing_revs st + 1 \<ge> 3 \<or> aborted st)\<rparr>)"
  using assms by (auto simp: walk_body_def Let_def empty_result_def split: prod.splits)

lemma walk_body_hit:
  assumes "py_str (n_rev st - 1) \<notin> keys (revisions st)"
    and "\<not> empty_result (fetch charm (Some (py_str (n_rev st - 1))))"
  shows "missing_revs (snd (walk_body fetch charm st)) = 0"
    and "fst (walk_body fetch charm st) = Continue"
  using assms by (auto simp: walk_body_def Let_def empty_result_def split: prod.splits)

lemma walk_body_skip:
  assumes "py_str (n_rev st - 1) \<in> keys (revisions st)"
  shows "walk_body fetch charm st = (Continue, st\<lparr>n_rev := n_rev st - 1\<rparr>)"
  using assms by (simp add: walk_body_def Let_def)

lemma walk_body_counter:
  assumes "missing_revs st < 3" and "\<not> aborted st" and "walk_body fetch charm st = (fl, st')"
  shows "fl = Continue \<longrightarrow> missing_revs st' < 3 \<and> \<not> aborted st'"
    and "fl = Break \<longrightarrow> missing_revs st' = 3 \<and> aborted st'"
  using assms by (auto simp: walk_body_def Let_def split: prod.splits if_splits)

lemma walk_counter:
  "missing_revs st < 3 \<Longrightarrow> \<not> aborted st
   \<Longrightarrow> missing_revs (walk fetch charm st) \<le> 3
       \<and> (aborted (walk fetch charm st) \<longleftrightarrow> missing_revs (walk fetch charm st) = 3)"
proof (induction fetch charm st rule: walk.induct)
  case (1 fetch charm st)
  show ?case
  proof (cases "n_rev st > 0")
    case False
    with "1.prems" show ?thesis by (simp add: walk.simps)
  next
    case True
    obtain fl st' where b: "walk_body fetch charm st = (fl, st')"
      by (cases "walk_body fetch charm st")
    show ?thesis
    proof (cases fl)
      case Break
      with walk_body_counter(2) [OF "1.prems" b] have "missing_revs st' = 3 \<and> aborted st'" by simp
      with True b Break show ?thesis by (simp add: walk.simps [of fetch charm st])
    next
      case Continue
      with walk_body_counter(1) [OF "1.prems" b] have i: "missing_revs st' < 3" "\<not> aborted st'" by simp_all
      from "1.IH" [OF True b [symmetric] Continue i] True b Continue
      show ?thesis by (simp add: walk.simps [of fetch charm st])
    qed
  qed
qed

lemma walk_miss_step:
  assumes "n_rev st > 0"
    and "py_str (n_rev st - 1) \<notin> keys (revisions st)"
    and "empty_result (fetch charm (Some (py_str (n_rev st - 1))))"
  shows "walk fetch charm st =
           (if missing_revs st + 1 \<ge> 3
            then st\<lparr>n_rev := n_rev st - 1,
                    requests := requests st @ [Some (py_str (n_rev st - 1))],
                    missing_revs := missing_revs st + 1,
                    aborted := True\<rparr>
            else walk fetch charm
                   (st\<lparr>n_rev := n_rev st - 1,
                       requests := requests st @ [Some (py_str (n_rev st - 1))],
                       missing_revs := missing_revs st + 1\<rparr>))"
  using assms walk_body_miss [of st fetch charm]
  by (subst walk.simps) (auto simp: Let_def)

lemma early_stop_scenario:
  assumes f6: "fetch charm None = (''6'', c)"
    and k5: "''5'' \<notin> keys revs" and k4: "''4'' \<notin> keys revs" and k3: "''3'' \<notin> keys revs"
    and m5: "empty_result (fetch charm (Some ''5''))"
    and m4: "empty_result (fetch charm (Some ''4''))"
    and m3: "empty_result (fetch charm (Some ''3''))"
  shows "update_charm_revisions fetch charm revs =
           \<lparr>revisions_out = (if ''6'' \<in> keys revs then revs else revs @ [(''6'', c)]),
            requests_out = [None, Some ''5'', Some ''4'', Some ''3''],
            returned = Inr (if ''6'' \<in> keys revs then 0 else 1)\<rparr>"
proof -
  define revs1 where "revs1 = (if ''6'' \<notin> keys revs then dict_set revs ''6'' c else revs)"
  define changed1 :: nat where "changed1 = (if ''6'' \<notin> keys revs then 1 else 0)"
  have r1: "revs1 = (if ''6'' \<in> keys revs then revs else revs @ [(''6'', c)])"
    by (simp add: revs1_def dict_set_absent)
  have k1: "keys revs1 = (if ''6'' \<in> keys revs then keys revs else insert ''6'' (keys revs))"
    by (simp add: revs1_def keys_dict_set)
  have k: "''5'' \<notin> keys revs1" "''4'' \<notin> keys revs1" "''3'' \<notin> keys revs1"
    using k5 k4 k3 by (simp_all add: k1)
  have i6: "py_int ''6'' = Inr 6" by code_simp
  have s5: "py_str 5 = ''5''" and s4: "py_str 4 = ''4''" and s3: "py_str 3 = ''3''"
    by code_simp+
  define st0 where "st0 = \<lparr>n_rev = 6, missing_revs = 0, revisions = revs1, changed = changed1,
                          requests = [None], aborted = False\<rparr>"
  define st1 where "st1 = st0\<lparr>n_rev := 5, requests := [None, Some ''5''], missing_revs := 1\<rparr>"
  define st2 where "st2 = st1\<lparr>n_rev := 4, requests := [None, Some ''5'', Some ''4''], missing_revs := 2\<rparr>"
  define st3 where "st3 = st2\<lparr>n_rev := 3, requests := [None, Some ''5'', Some ''4'', Some ''3''],
                             missing_revs := 3, aborted := True\<rparr>"
  have w0: "walk fetch charm st0 = walk fetch charm st1"
    using walk_miss_step [of st0 fetch charm] k m5
    by (simp add: st0_def st1_def s5 eval_nat_numeral)
  have w1: "walk fetch charm st1 = walk fetch charm st2"
    using walk_miss_step [of st1 fetch charm] k m4
    by (simp add: st0_def st1_def st2_def s4 eval_nat_numeral)
  have w2: "walk fetch charm st2 = st3"
    using walk_miss_step [of st2 fetch charm] k m3
    by (simp add: st0_def st1_def st2_def st3_def s3 eval_nat_numeral)
  have w: "walk fetch charm st0 = st3" by (simp only: w0 w1 w2)
  have "update_charm_revisions fetch charm revs =
          \<lparr>revisions_out = revisions (walk fetch charm st0),
           requests_out = requests (walk fetch charm st0),
           returned = Inr (changed (walk fetch charm st0))\<rparr>"
    by (simp add: update_charm_revisions_def f6 i6 revs1_def changed1_def st0_def Let_def)
  then show ?thesis
    unfolding w by (simp add: st3_def st2_def st1_def st0_def r1 changed1_def)
qed

text \<open>
  C2. When the latest revision is \<open>6\<close>, revisions \<open>5\<close>, \<open>4\<close> and \<open>3\<close> are not yet
  stored and their fetches give empty results, the requests made are exactly the
  latest, \<open>5\<close>, \<open>4\<close> and \<open>3\<close>: revision \<open>2\<close> and below are never asked for, and the
  call returns the count of the one possible new entry. In every pass through the
  loop body that fetches, an empty result adds one to the counter and leaves the loop
  exactly when the counter has reached 3, and a successful result sets the counter to
  0 and stays in the loop. Started with a counter below 3, the walk ends with a
  counter of at most 3 and was left by \<open>break\<close> exactly when the counter is 3.
\<close>

theorem early_stop_after_three_misses:
  "(fetch charm None = (''6'', c)
      \<and> ''5'' \<notin> keys revs \<and> ''4'' \<notin> keys revs \<and> ''3'' \<notin> keys revs
      \<and> empty_result (fetch charm (Some ''5''))
      \<and> empty_result (fetch charm (Some ''4''))
      \<and> empty_result (fetch charm (Some ''3''))
    \<longrightarrow> requests_out (update_charm_revisions fetch charm revs) = [None, Some ''5'', Some ''4'', Some ''3'']
        \<and> (\<forall>rq. Some rq \<in> set (requests_out (update_charm_revisions fetch charm revs))
                \<longrightarrow> rq \<in> {''5'', ''4'', ''3''})
        \<and> returned (update_charm_revisions fetch charm revs) = Inr (if ''6'' \<in> keys revs then 0 else 1))
   \<and> (py_str (n_rev st - 1) \<notin> keys (revisions st)
      \<and> empty_result (fetch charm (Some (py_str (n_rev st - 1))))
    \<longrightarrow> missing_revs (snd (walk_body fetch charm st)) = missing_revs st + 1
        \<and> (fst (walk_body fetch charm st) = Break \<longleftrightarrow> missing_revs st + 1 \<ge> 3))
   \<and> (py_str (n_rev st - 1) \<notin> keys (revisions st)
      \<and> \<not> empty_result (fetch charm (Some (py_str (n_rev st - 1))))
    \<longrightarrow> missing_revs (snd (walk_body fetch charm st)) = 0
        \<and> fst (walk_body fetch charm st) = Continue)
   \<and> (missing_revs st < 3 \<and> \<not> aborted st
    \<longrightarrow> missing_revs (walk fetch charm st) \<le> 3
        \<and> (aborted (walk fetch charm st) \<longleftrightarrow> missing_revs (walk fetch charm st) = 3))"
proof (intro conjI impI)
  assume a: "fetch charm None = (''6'', c)
      \<and> ''5'' \<notin> keys revs \<and> ''4'' \<notin> keys revs \<and> ''3'' \<notin> keys revs
      \<and> empty_result (fetch charm (Some ''5''))
      \<and> empty_result (fetch charm (Some ''4''))
      \<and> empty_result (fetch charm (Some ''3''))"
  then have out: "update_charm_revisions fetch charm revs =
           \<lparr>revisions_out = (if ''6'' \<in> keys revs then revs else revs @ [(''6'', c)]),
            requests_out = [None, Some ''5'', Some ''4'', Some ''3''],
            returned = Inr (if ''6'' \<in> keys revs then 0 else 1)\<rparr>"
    by (intro early_stop_scenario) simp_all
  show "requests_out (update_charm_revisions fetch charm revs) = [None, Some ''5'', Some ''4'', Some ''3'']"
    by (simp add: out)
  show "\<forall>rq. Some rq \<in> set (requests_out (update_charm_revisions fetch charm revs))
                \<longrightarrow> rq \<in> {''5'', ''4'', ''3''}"
    by (simp add: out)
  show "returned (update_charm_revisions fetch charm revs) = Inr (if ''6'' \<in> keys revs then 0 else 1)"
    by (simp add: out)
next
  assume a: "py_str (n_rev st - 1) \<notin> keys (revisions st)
      \<and> empty_result (fetch charm (Some (py_str (n_rev st - 1))))"
  then have b: "walk_body fetch charm st =
           (if missing_revs st + 1 \<ge> 3 then Break else Continue,
            st\<lparr>n_rev := n_rev st - 1,
               requests := requests st @ [Some (py_str (n_rev st - 1))],
               missing_revs := missing_revs st + 1,
               aborted := (missing_revs st + 1 \<ge> 3 \<or> aborted st)\<rparr>)"
    by (intro walk_body_miss) simp_all
  show "missing_revs (snd (walk_body fetch charm st)) = missing_revs st + 1"
    by (simp add: b)
  show "fst (walk_body fetch charm st) = Break \<longleftrightarrow> missing_revs st + 1 \<ge> 3"
    by (simp add: b)
next
  assume a: "py_str (n_rev st - 1) \<notin> keys (revisions st)
      \<and> \<not> empty_result (fetch charm (Some (py_str (n_rev st - 1))))"
  then show "missing_revs (snd (walk_body fetch charm st)) = 0"
    by (intro walk_body_hit(1)) simp_all
  from a show "fst (walk_body fetch charm st) = Continue"
    by (intro walk_body_hit(2)) simp_all
next
  assume a: "missing_revs st < 3 \<and> \<not> aborted st"
  then have "missing_revs (walk fetch charm st) \<le> 3
       \<and> (aborted (walk fetch charm st) \<longleftrightarrow> missing_revs (walk fetch charm st) = 3)"
    by (intro walk_counter) simp_all
  then show "missing_revs (walk fetch charm st) \<le> 3"
    and "aborted (walk fetch charm st) \<longleftrightarrow> missing_revs (walk fetch charm st) = 3"
    by simp_all
qed

theorem early_stop_after_three_misses_witness:
  "gap_stub ''cinder'' None = (''6'', ''C6'')
   \<and> ''5'' \<notin> keys ([] :: (string, string) dict)
   \<and> empty_result (gap_stub ''cinder'' (Some ''5''))
   \<and> empty_result (gap_stub ''cinder'' (Some ''4''))
   \<and> empty_result (gap_stub ''cinder'' (Some ''3''))
   \<and> \<not> empty_result (gap_stub ''cinder'' (Some ''2''))
   \<and> requests_out (update_charm_revisions gap_stub ''cinder'' []) = [None, Some ''5'', Some ''4'', Some ''3'']
   \<and> returned (update_charm_revisions gap_stub ''cinder'' []) = Inr 1
   \<and> missing_revs (snd (walk_body gap_stub ''cinder'' third_miss_state)) = 3
   \<and> fst (walk_body gap_stub ''cinder'' third_miss_state) = Break
   \<and> missing_revs (snd (walk_body gap_stub ''cinder'' hit_state)) = 0
   \<and> fst (walk_body gap_stub ''cinder'' hit_state) = Continue
   \<and> aborted (walk gap_stub ''cinder'' third_miss_state)
   \<and> missing_revs (walk gap_stub ''cinder'' third_miss_state) = 3"
proof -
  have f6: "gap_stub ''cinder'' None = (''6'', ''C6'')" by (simp add: gap_stub_def)
  have k: "''5'' \<notin> keys ([] :: (string, string) dict)" "''4'' \<notin> keys ([] :: (string, string) dict)"
    "''3'' \<notin> keys ([] :: (string, string) dict)" "''6'' \<notin> keys ([] :: (string, string) dict)"
    by (simp_all add: keys_Nil)
  have m: "empty_result (gap_stub ''cinder'' (Some ''5''))"
    "empty_result (gap_stub ''cinder'' (Some ''4''))"
    "empty_result (gap_stub ''cinder'' (Some ''3''))"
    by (simp_all add: gap_stub_def empty_result_def)
  have h: "\<not> empty_result (gap_stub ''cinder'' (Some ''2''))"
    by (simp add: gap_stub_def empty_result_def)
  have s3: "py_str (n_rev third_miss_state - 1) = ''3''" 
    and s2: "py_str (n_rev hit_state - 1) = ''2''"
    by code_simp+
  have n3: "''3'' \<notin> keys (revisions third_miss_state)" and n2: "''2'' \<notin> keys (revisions hit_state)"
    by (simp_all add: third_miss_state_def hit_state_def keys_Cons keys_Nil)
  have c3: "missing_revs third_miss_state = 2" "\<not> aborted third_miss_state"
    by (simp_all add: third_miss_state_def)
  note t1 = early_stop_after_three_misses [of gap_stub "''cinder''" "''C6''" "[]" third_miss_state]
  note t2 = early_stop_after_three_misses [of gap_stub "''cinder''" "''C6''" "[]" hit_state]
  from t1 f6 k m
  have r: "requests_out (update_charm_revisions gap_stub ''cinder'' []) = [None, Some ''5'', Some ''4'', Some ''3'']"
    and c: "returned (update_charm_revisions gap_stub ''cinder'' []) = Inr (if ''6'' \<in> keys ([] :: (string, string) dict) then 0 else 1)"
    by blast+
  from c k have c': "returned (update_charm_revisions gap_stub ''cinder'' []) = Inr 1" by simp
  from t1 n3 m(3) have "missing_revs (snd (walk_body gap_stub ''cinder'' third_miss_state)) = missing_revs third_miss_state + 1"
    and "fst (walk_body gap_stub ''cinder'' third_miss_state) = Break \<longleftrightarrow> missing_revs third_miss_state + 1 \<ge> 3"
    unfolding s3 by blast+
  then have b3: "missing_revs (snd (walk_body gap_stub ''cinder'' third_miss_state)) = 3"
    and b3': "fst (walk_body gap_stub ''cinder'' third_miss_state) = Break"
    by (simp_all add: c3)
  from t2 n2 h have b2: "missing_revs (snd (walk_body gap_stub ''cinder'' hit_state)) = 0"
    and b2': "fst (walk_body gap_stub ''cinder'' hit_state) = Continue"
    unfolding s2 by blast+
  have w: "missing_revs (walk gap_stub ''cinder'' third_miss_state) = 3" by code_simp
  from t1 c3 have "aborted (walk gap_stub ''cinder'' third_miss_state)
       \<longleftrightarrow> missing_revs (walk gap_stub ''cinder'' third_miss_state) = 3"
    by simp
  with w have a: "aborted (walk gap_stub ''cinder'' third_miss_state)" by simp
  from f6 k(1) m h r c' b3 b3' b2 b2' a w show ?thesis by (intro conjI)
qed

section \<open>The fetcher\<close>

lemma repo_info_commit_first:
  "repo_info_commit ls commit =
     (case map (\<lambda>l. py_strip (tl (dropWhile (\<lambda>c. c \<noteq> CHR '':'') l)))
             (filter (\<lambda>l. CHR '':'' \<in> set l \<and> takeWhile (\<lambda>c. c \<noteq> CHR '':'') l = ''commit-sha-1'')
                (map py_strip ls)) of
        [] \<Rightarrow> commit | v # _ \<Rightarrow> v)"
  by (induction ls) (simp_all add: Let_def)

lemma py_rsplit_none: "sep \<notin> set s \<Longrightarrow> py_rsplit sep s = [s]"
  by (induction s) auto

lemma py_rsplit_some: "sep \<in> set s \<Longrightarrow> \<exists>x y ys. py_rsplit sep s = x # y # ys"
proof (induction s)
  case Nil
  then show ?case by simp
next
  case (Cons c cs)
  show ?case
  proof (cases "sep \<in> set cs")
    case True
    from Cons.IH [OF True] show ?thesis by auto
  next
    case False
    with Cons.prems have "c = sep" by simp
    with False show ?thesis by (simp add: py_rsplit_none)
  qed
qed

lemma py_rsplit_last:
  "sep \<in> set s \<Longrightarrow> \<exists>p. s = p @ sep # last (py_rsplit sep s) \<and> sep \<notin> set (last (py_rsplit sep s))"
proof (induction s)
  case Nil
  then show ?case by simp
next
  case (Cons c cs)
  show ?case
  proof (cases "sep \<in> set cs")
    case True
    from py_rsplit_some [OF True] obtain x y ys where r: "py_rsplit sep cs = x # y # ys" by blast
    from Cons.IH [OF True] obtain p where p: "cs = p @ sep # last (py_rsplit sep cs)"
      and n: "sep \<notin> set (last (py_rsplit sep cs))" by blast
    have l: "last (py_rsplit sep (c # cs)) = last (py_rsplit sep cs)"
      using r by simp
    from p have "c # cs = (c # p) @ sep # last (py_rsplit sep cs)" by simp
    with n l show ?thesis by metis
  next
    case False
    with Cons.prems have c: "c = sep" by simp
    with False have "last (py_rsplit sep (c # cs)) = cs" by (simp add: py_rsplit_none)
    with c False show ?thesis by auto
  qed
qed

text \<open>
  C7 as stated: an unresolved lookup is said to return \<open>("", "")\<close> and never a revision
  with an empty commit. The revision is taken from \<open>Id\<close> before a commit is looked
  for, so an answer with an identifier and no commit in either source gives the pair
  \<open>("15", "")\<close>.
\<close>

theorem revision_without_commit:
  "get_revision_commit no_commit_web ''barbican-vault'' None = (''15'', '''')"
  by code_simp

text \<open>
  C7, amended. On a registry answer of the documented shape \<open>get_revision_commit\<close>
  returns a pair, determined as follows. It is \<open>("", "")\<close> when the answer has no \<open>Id\<close>
  or an \<open>Id\<close> without a hyphen, the empty one included. When \<open>Id\<close> has a hyphen, the
  revision returned is the text after the last hyphen of \<open>Id\<close>, whatever the commit; the
  commit returned is the first commit of \<open>vcs-revisions\<close> when there is one and it is
  not empty, otherwise the value of the first \<open>commit-sha-1\<close> line of the \<open>repo-info\<close>
  document of that revision, otherwise the empty string. So the commit is empty
  exactly when neither source yields a non-empty commit, and the result is then that
  revision paired with the empty commit.
\<close>

theorem get_revision_commit_shape:
  fixes w :: web and charm :: string and r :: "string option"
  defines "data \<equiv> json_at w (meta_url (request_name charm r))"
  shows "(Id data = None \<or> (\<exists>i. Id data = Some i \<and> CHR ''-'' \<notin> set i)
            \<longrightarrow> get_revision_commit w charm r = ('''', ''''))
       \<and> (\<forall>i rv. Id data = Some i \<and> CHR ''-'' \<in> set i \<and> rv = last (py_rsplit CHR ''-'' i)
            \<longrightarrow> (\<exists>p. i = p @ ''-'' @ rv) \<and> CHR ''-'' \<notin> set rv
                \<and> get_revision_commit w charm r =
                    (rv, case vcs_revisions data of
                           [] \<Rightarrow> (case commit_sha_values (text_at w (repo_info_url charm rv)) of
                                     [] \<Rightarrow> '''' | v # _ \<Rightarrow> v)
                         | c # _ \<Rightarrow>
                             if c \<noteq> [] then c
                             else (case commit_sha_values (text_at w (repo_info_url charm rv)) of
                                     [] \<Rightarrow> '''' | v # _ \<Rightarrow> v))
                \<and> (snd (get_revision_commit w charm r) = []
                     \<longleftrightarrow> (case vcs_revisions data of [] \<Rightarrow> True | c # _ \<Rightarrow> c = [])
                         \<and> (case commit_sha_values (text_at w (repo_info_url charm rv)) of
                               [] \<Rightarrow> True | v # _ \<Rightarrow> v = [])))"
proof (intro conjI allI impI)
  assume "Id data = None \<or> (\<exists>i. Id data = Some i \<and> CHR ''-'' \<notin> set i)"
  then show "get_revision_commit w charm r = ('''', '''')"
    unfolding data_def by (auto simp: get_revision_commit_def Let_def)
next
  fix i rv assume a: "Id data = Some i \<and> CHR ''-'' \<in> set i \<and> rv = last (py_rsplit CHR ''-'' i)"
  then have i: "Id data = Some i" "CHR ''-'' \<in> set i" "i \<noteq> []"
    and rv: "rv = last (py_rsplit CHR ''-'' i)" by auto
  from py_rsplit_last [OF i(2)] show "\<exists>p. i = p @ ''-'' @ rv" and "CHR ''-'' \<notin> set rv"
    unfolding rv by auto
  let ?sha = "case commit_sha_values (text_at w (repo_info_url charm rv)) of [] \<Rightarrow> '''' | v # _ \<Rightarrow> v"
  have s: "repo_info_commit (py_splitlines (py_strip (text_at w (repo_info_url charm rv)))) '''' = ?sha"
    by (simp add: repo_info_commit_first commit_sha_values_def)
  show g: "get_revision_commit w charm r =
             (rv, case vcs_revisions data of [] \<Rightarrow> ?sha | c # _ \<Rightarrow> if c \<noteq> [] then c else ?sha)"
    using i s unfolding data_def rv
    by (simp add: get_revision_commit_def Let_def split: list.splits)
  show "snd (get_revision_commit w charm r) = []
            \<longleftrightarrow> (case vcs_revisions data of [] \<Rightarrow> True | c # _ \<Rightarrow> c = [])
                \<and> (case commit_sha_values (text_at w (repo_info_url charm rv)) of
                      [] \<Rightarrow> True | v # _ \<Rightarrow> v = [])"
    unfolding g by (simp split: list.splits)
qed

theorem get_revision_commit_shape_witness:
  "Id (json_at unknown_charm_web (meta_url (request_name ''cinder'' None))) = None
   \<and> get_revision_commit unknown_charm_web ''cinder'' None = ('''', '''')
   \<and> json_at sha_web (meta_url (request_name ''cinder'' (Some ''303'')))
       = \<lparr>Id = Some ''cs:cinder-303'', vcs_revisions = [''9b8a'']\<rparr>
   \<and> get_revision_commit sha_web ''cinder'' (Some ''303'') = (''303'', ''9b8a'')
   \<and> json_at sha_web (meta_url (request_name ''barbican-vault'' None))
       = \<lparr>Id = Some ''cs:barbican-vault-4'', vcs_revisions = ['''']\<rparr>
   \<and> commit_sha_values (text_at sha_web (repo_info_url ''barbican-vault'' ''4'')) = [''a52f'', ''ffff'']
   \<and> get_revision_commit sha_web ''barbican-vault'' None = (''4'', ''a52f'')
   \<and> json_at no_sha_web (meta_url (request_name ''cinder'' (Some ''303'')))
       = \<lparr>Id = Some ''cs:cinder-303'', vcs_revisions = []\<rparr>
   \<and> commit_sha_values (text_at no_sha_web (repo_info_url ''cinder'' ''303'')) = []
   \<and> get_revision_commit no_sha_web ''cinder'' (Some ''303'') = (''303'', '''')
   \<and> json_at empty_sha_web (meta_url (request_name ''cinder'' (Some ''7'')))
       = \<lparr>Id = Some ''cs:cinder-7'', vcs_revisions = ['''', ''9b8a'']\<rparr>
   \<and> commit_sha_values (text_at empty_sha_web (repo_info_url ''cinder'' ''7'')) = ['''', ''ffff'']
   \<and> get_revision_commit empty_sha_web ''cinder'' (Some ''7'') = (''7'', '''')
   \<and> snd (get_revision_commit empty_sha_web ''cinder'' (Some ''7'')) = []"
proof -
  have a: "Id (json_at unknown_charm_web (meta_url (request_name ''cinder'' None))) = None"
    by (simp add: unknown_charm_web_def)
  have j1: "json_at sha_web (meta_url (request_name ''cinder'' (Some ''303'')))
       = \<lparr>Id = Some ''cs:cinder-303'', vcs_revisions = [''9b8a'']\<rparr>"
    by code_simp
  have j2: "json_at sha_web (meta_url (request_name ''barbican-vault'' None))
       = \<lparr>Id = Some ''cs:barbican-vault-4'', vcs_revisions = ['''']\<rparr>"
    by code_simp
  have j3: "json_at no_sha_web (meta_url (request_name ''cinder'' (Some ''303'')))
       = \<lparr>Id = Some ''cs:cinder-303'', vcs_revisions = []\<rparr>"
    by (simp add: no_sha_web_def)
  have j4: "json_at empty_sha_web (meta_url (request_name ''cinder'' (Some ''7'')))
       = \<lparr>Id = Some ''cs:cinder-7'', vcs_revisions = ['''', ''9b8a'']\<rparr>"
    by (simp add: empty_sha_web_def)
  have l1: "last (py_rsplit CHR ''-'' ''cs:cinder-303'') = ''303''" by code_simp
  have l2: "last (py_rsplit CHR ''-'' ''cs:barbican-vault-4'') = ''4''" by code_simp
  have l4: "last (py_rsplit CHR ''-'' ''cs:cinder-7'') = ''7''" by code_simp
  have s2: "commit_sha_values (text_at sha_web (repo_info_url ''barbican-vault'' ''4'')) = [''a52f'', ''ffff'']"
    by code_simp
  have s3: "commit_sha_values (text_at no_sha_web (repo_info_url ''cinder'' ''303'')) = []"
    by code_simp
  have s4: "commit_sha_values (text_at empty_sha_web (repo_info_url ''cinder'' ''7'')) = ['''', ''ffff'']"
    by code_simp
  note t0 = get_revision_commit_shape [of unknown_charm_web "''cinder''" None]
  note t1 = get_revision_commit_shape [of sha_web "''cinder''" "Some ''303''"]
  note t2 = get_revision_commit_shape [of sha_web "''barbican-vault''" None]
  note t3 = get_revision_commit_shape [of no_sha_web "''cinder''" "Some ''303''"]
  note t4 = get_revision_commit_shape [of empty_sha_web "''cinder''" "Some ''7''"]
  from t0 a have r0: "get_revision_commit unknown_charm_web ''cinder'' None = ('''', '''')"
    by blast
  from t1 [unfolded j1] have "get_revision_commit sha_web ''cinder'' (Some ''303'')
      = (last (py_rsplit CHR ''-'' ''cs:cinder-303''), ''9b8a'')"
    by simp
  then have r1: "get_revision_commit sha_web ''cinder'' (Some ''303'') = (''303'', ''9b8a'')"
    unfolding l1 .
  from t2 [unfolded j2] have "get_revision_commit sha_web ''barbican-vault'' None
      = (last (py_rsplit CHR ''-'' ''cs:barbican-vault-4''),
         case commit_sha_values (text_at sha_web (repo_info_url ''barbican-vault''
                 (last (py_rsplit CHR ''-'' ''cs:barbican-vault-4'')))) of [] \<Rightarrow> '''' | v # _ \<Rightarrow> v)"
    by simp
  then have r2: "get_revision_commit sha_web ''barbican-vault'' None = (''4'', ''a52f'')"
    unfolding l2 s2 by simp
  from t3 [unfolded j3] have "get_revision_commit no_sha_web ''cinder'' (Some ''303'')
      = (last (py_rsplit CHR ''-'' ''cs:cinder-303''),
         case commit_sha_values (text_at no_sha_web (repo_info_url ''cinder''
                 (last (py_rsplit CHR ''-'' ''cs:cinder-303'')))) of [] \<Rightarrow> '''' | v # _ \<Rightarrow> v)"
    by simp
  then have r3: "get_revision_commit no_sha_web ''cinder'' (Some ''303'') = (''303'', '''')"
    unfolding l1 s3 by simp
  from t4 [unfolded j4] have "get_revision_commit empty_sha_web ''cinder'' (Some ''7'')
      = (last (py_rsplit CHR ''-'' ''cs:cinder-7''),
         case commit_sha_values (text_at empty_sha_web (repo_info_url ''cinder''
                 (last (py_rsplit CHR ''-'' ''cs:cinder-7'')))) of [] \<Rightarrow> '''' | v # _ \<Rightarrow> v)"
    by simp
  then have r4: "get_revision_commit empty_sha_web ''cinder'' (Some ''7'') = (''7'', '''')"
    unfolding l4 s4 by simp
  from t4 [unfolded j4] have r5: "snd (get_revision_commit empty_sha_web ''cinder'' (Some ''7'')) = []"
    by (simp add: s4)
  from a r0 j1 r1 j2 s2 r2 j3 s3 r3 j4 s4 r4 r5 show ?thesis by (intro conjI)
qed

section \<open>The report rows\<close>

text \<open>
  C9. With a truthy deployed revision, \<open>mark_revs\<close> keeps the number of cells and puts
  \<open>*\<close> before exactly the cells equal to \<open>str\<close> of the deployed revision, leaving every
  other cell as it is; with a falsy deployed revision it returns the cells unchanged.
\<close>

theorem mark_revs_marks_current:
  "(truthy current_rev \<longrightarrow>
      length (mark_revs revs current_rev) = length revs
      \<and> (\<forall>i < length revs.
            mark_revs revs current_rev ! i
              = (if revs ! i = str_of current_rev then CHR ''*'' # revs ! i else revs ! i)))
   \<and> (\<not> truthy current_rev \<longrightarrow> mark_revs revs current_rev = revs)"
  by (auto simp: mark_revs_def yesno_def)

theorem mark_revs_marks_current_witness:
  "truthy (PInt 10)
   \<and> length (mark_revs [''9'', ''10'', '''', ''101''] (PInt 10)) = 4
   \<and> mark_revs [''9'', ''10'', '''', ''101''] (PInt 10) ! 0 = ''9''
   \<and> mark_revs [''9'', ''10'', '''', ''101''] (PInt 10) ! 1 = ''*10''
   \<and> mark_revs [''9'', ''10'', '''', ''101''] (PInt 10) ! 2 = ''''
   \<and> mark_revs [''9'', ''10'', '''', ''101''] (PInt 10) ! 3 = ''101''
   \<and> \<not> truthy (PInt 0)
   \<and> mark_revs [''9'', ''0''] (PInt 0) = [''9'', ''0'']"
proof -
  have s: "py_str 10 = ''10''" by code_simp
  show ?thesis
    using mark_revs_marks_current [of "PInt 10" "[''9'', ''10'', '''', ''101'']"]
      mark_revs_marks_current [of "PInt 0" "[''9'', ''0'']"]
    by (simp add: s)
qed

subsection \<open>The upgrade order\<close>

lemma orders_fold_absent:
  "c \<notin> set xs \<Longrightarrow>
   map_of (fold (\<lambda>(i, charm) d. dict_set d charm i) (enumerate n xs) d) c = map_of d c"
  by (induction xs arbitrary: n d) (auto simp: map_of_dict_set)

lemma orders_fold_nth:
  "distinct xs \<Longrightarrow> i < length xs \<Longrightarrow>
   map_of (fold (\<lambda>(i, charm) d. dict_set d charm i) (enumerate n xs) d) (xs ! i) = Some (n + i)"
proof (induction xs arbitrary: n d i)
  case Nil
  then show ?case by simp
next
  case (Cons x xs)
  show ?case
  proof (cases i)
    case 0
    with Cons.prems show ?thesis by (simp add: orders_fold_absent map_of_dict_set)
  next
    case (Suc j)
    with Cons.prems have "distinct xs" "j < length xs" by simp_all
    from Cons.IH [OF this, of "Suc n" "dict_set d x n"] Suc show ?thesis by simp
  qed
qed

lemma catalog_distinct: "distinct (OPENSTACK_CHAMRS @ LMA_CHARMS)"
  by (simp add: OPENSTACK_CHAMRS_def LMA_CHARMS_def)

lemma catalog_length: "length (OPENSTACK_CHAMRS @ LMA_CHARMS) = 52"
  by (simp add: OPENSTACK_CHAMRS_def LMA_CHARMS_def)

lemma app_order_nth:
  "i < length (OPENSTACK_CHAMRS @ LMA_CHARMS) \<Longrightarrow> app_order ((OPENSTACK_CHAMRS @ LMA_CHARMS) ! i) = i"
  using orders_fold_nth [OF catalog_distinct, of i 0 "[]"]
  by (simp add: app_order_def ORDERS_def orders_of_def dict_get_def)

lemma app_order_absent:
  "charm \<notin> set (OPENSTACK_CHAMRS @ LMA_CHARMS) \<Longrightarrow> app_order charm = ORDER_MAX"
  using orders_fold_absent [of charm "OPENSTACK_CHAMRS @ LMA_CHARMS" 0 "[]"]
  by (simp add: app_order_def ORDERS_def orders_of_def dict_get_def)

lemma app_order_present:
  assumes "charm \<in> set (OPENSTACK_CHAMRS @ LMA_CHARMS)"
  shows "app_order charm < ORDER_MAX"
proof -
  from assms [unfolded in_set_conv_nth]
  obtain i where i: "i < length (OPENSTACK_CHAMRS @ LMA_CHARMS)"
    and c: "(OPENSTACK_CHAMRS @ LMA_CHARMS) ! i = charm"
    by blast
  from app_order_nth [OF i] c have "app_order charm = i" by simp
  moreover from i have "i < 52" by (simp only: catalog_length)
  ultimately show ?thesis by (simp add: ORDER_MAX_def)
qed

lemma app_order_le: "app_order charm \<le> ORDER_MAX"
  using app_order_present [of charm] app_order_absent [of charm]
  by (cases "charm \<in> set (OPENSTACK_CHAMRS @ LMA_CHARMS)") simp_all

lemma ordered_apps_fst:
  "p \<in> set (ordered_apps apps) \<Longrightarrow> fst p = app_order (charm_name (snd p))"
  by (auto simp: ordered_apps_def)

lemma ordered_apps_sorted: "sorted (map fst (ordered_apps apps))"
  by (simp add: ordered_apps_def)

lemma unranked_after_ranked:
  assumes i: "i < length (ordered_apps apps)" and j: "j < length (ordered_apps apps)"
    and ri: "fst (ordered_apps apps ! i) \<noteq> ORDER_MAX"
    and uj: "fst (ordered_apps apps ! j) = ORDER_MAX"
  shows "i < j"
proof (rule ccontr)
  assume "\<not> i < j"
  then have "j \<le> i" by simp
  with ordered_apps_sorted [of apps] i
  have "map fst (ordered_apps apps) ! j \<le> map fst (ordered_apps apps) ! i"
    by (simp add: sorted_iff_nth_mono del: nth_map)
  with i j have "fst (ordered_apps apps ! j) \<le> fst (ordered_apps apps ! i)" by simp
  moreover have "fst (ordered_apps apps ! i) \<le> ORDER_MAX"
    using ordered_apps_fst [of "ordered_apps apps ! i" apps] i app_order_le by simp
  ultimately show False using ri uj by simp
qed

text \<open>
  C8. The order of a charm is its position in the primary catalog followed by the
  auxiliary one, and \<open>ORDER_MAX\<close> for a charm of neither; a charm of the catalogs has
  an order below \<open>ORDER_MAX\<close>. In the rows of the report every application carries the
  order of its charm, the orders ascend, every unranked application stands after
  every ranked one whatever the names are, applications of equal order keep the
  order they had in the status document, and the rows are printed in that order.
\<close>

theorem upgrade_order_and_sort_position:
  "(\<forall>i < length (OPENSTACK_CHAMRS @ LMA_CHARMS).
       app_order ((OPENSTACK_CHAMRS @ LMA_CHARMS) ! i) = i)
   \<and> (charm \<notin> set (OPENSTACK_CHAMRS @ LMA_CHARMS) \<longrightarrow> app_order charm = ORDER_MAX)
   \<and> (charm \<in> set (OPENSTACK_CHAMRS @ LMA_CHARMS) \<longrightarrow> app_order charm < ORDER_MAX)
   \<and> (\<forall>p \<in> set (ordered_apps apps). fst p = app_order (charm_name (snd p)))
   \<and> sorted (map fst (ordered_apps apps))
   \<and> (\<forall>i j. i < length (ordered_apps apps) \<and> j < length (ordered_apps apps)
             \<and> fst (ordered_apps apps ! i) \<noteq> ORDER_MAX \<and> fst (ordered_apps apps ! j) = ORDER_MAX
          \<longrightarrow> i < j)
   \<and> (\<forall>k. filter (\<lambda>p. fst p = k) (ordered_apps apps)
            = filter (\<lambda>p. fst p = k) (map (\<lambda>a. (app_order (charm_name a), a)) apps))
   \<and> map row_app (report branch_to_revision apps) = map (\<lambda>p. app_name (snd p)) (ordered_apps apps)"
proof (intro conjI allI impI ballI)
  fix i assume "i < length (OPENSTACK_CHAMRS @ LMA_CHARMS)"
  then show "app_order ((OPENSTACK_CHAMRS @ LMA_CHARMS) ! i) = i" by (rule app_order_nth)
next
  assume "charm \<notin> set (OPENSTACK_CHAMRS @ LMA_CHARMS)"
  then show "app_order charm = ORDER_MAX" by (rule app_order_absent)
next
  assume "charm \<in> set (OPENSTACK_CHAMRS @ LMA_CHARMS)"
  then show "app_order charm < ORDER_MAX" by (rule app_order_present)
next
  fix p assume "p \<in> set (ordered_apps apps)"
  then show "fst p = app_order (charm_name (snd p))" by (rule ordered_apps_fst)
next
  show "sorted (map fst (ordered_apps apps))" by (rule ordered_apps_sorted)
next
  fix i j
  assume "i < length (ordered_apps apps) \<and> j < length (ordered_apps apps)
             \<and> fst (ordered_apps apps ! i) \<noteq> ORDER_MAX \<and> fst (ordered_apps apps ! j) = ORDER_MAX"
  then show "i < j" using unranked_after_ranked [of i apps j] by blast
next
  fix k
  show "filter (\<lambda>p. fst p = k) (ordered_apps apps)
            = filter (\<lambda>p. fst p = k) (map (\<lambda>a. (app_order (charm_name a), a)) apps)"
    unfolding ordered_apps_def by (rule sort_key_stable)
next
  show "map row_app (report branch_to_revision apps) = map (\<lambda>p. app_name (snd p)) (ordered_apps apps)"
    by (simp add: report_def report_row_def Let_def)
qed

theorem upgrade_order_and_sort_position_witness:
  "(OPENSTACK_CHAMRS @ LMA_CHARMS) ! 14 = ''cinder''
   \<and> app_order ''cinder'' = 14
   \<and> ''zookeeper'' \<notin> set (OPENSTACK_CHAMRS @ LMA_CHARMS)
   \<and> app_order ''zookeeper'' = ORDER_MAX
   \<and> ''ntp'' \<in> set (OPENSTACK_CHAMRS @ LMA_CHARMS)
   \<and> app_order ''ntp'' < ORDER_MAX
   \<and> ordered_apps [unranked_app, ranked_app] = [(51, ranked_app), (999, unranked_app)]
   \<and> sorted (map fst (ordered_apps [unranked_app, ranked_app]))
   \<and> map row_app (report [] [unranked_app, ranked_app]) = [''zzz'', ''aaa'']
   \<and> map row_order (report [] [unranked_app, ranked_app]) = [''51'', ''--'']"
proof -
  note t1 = upgrade_order_and_sort_position [of "''zookeeper''" "[unranked_app, ranked_app]" "[]"]
  note t2 = upgrade_order_and_sort_position [of "''ntp''" "[unranked_app, ranked_app]" "[]"]
  have n: "(OPENSTACK_CHAMRS @ LMA_CHARMS) ! 14 = ''cinder''"
    by (simp add: OPENSTACK_CHAMRS_def LMA_CHARMS_def)
  have l: "(14::nat) < length (OPENSTACK_CHAMRS @ LMA_CHARMS)"
    by (simp add: OPENSTACK_CHAMRS_def LMA_CHARMS_def)
  from t1 l have "app_order ((OPENSTACK_CHAMRS @ LMA_CHARMS) ! 14) = 14" by blast
  then have a: "app_order ''cinder'' = 14" unfolding n .
  have z: "''zookeeper'' \<notin> set (OPENSTACK_CHAMRS @ LMA_CHARMS)"
    by (simp add: OPENSTACK_CHAMRS_def LMA_CHARMS_def)
  from t1 z have b: "app_order ''zookeeper'' = ORDER_MAX" by blast
  have p: "''ntp'' \<in> set (OPENSTACK_CHAMRS @ LMA_CHARMS)"
    by (simp add: OPENSTACK_CHAMRS_def LMA_CHARMS_def)
  from t2 p have c: "app_order ''ntp'' < ORDER_MAX" by blast
  have o: "ordered_apps [unranked_app, ranked_app] = [(51, ranked_app), (999, unranked_app)]"
    by code_simp
  from t1 have s: "sorted (map fst (ordered_apps [unranked_app, ranked_app]))" by blast
  from t1 have "map row_app (report [] [unranked_app, ranked_app])
      = map (\<lambda>p. app_name (snd p)) (ordered_apps [unranked_app, ranked_app])" by blast
  then have r: "map row_app (report [] [unranked_app, ranked_app]) = [''zzz'', ''aaa'']"
    unfolding o by (simp add: ranked_app_def unranked_app_def)
  have q: "map row_order (report [] [unranked_app, ranked_app]) = [''51'', ''--'']"
    by code_simp
  from n a z b p c o s r q show ?thesis by (intro conjI)
qed

end
